theory Spec2Isabelle
  imports Complex_Main
begin

section \<open>The relay of \<^verbatim>\<open>proxy.py\<close>\<close>

text \<open>
  The source is one Python module: \<^verbatim>\<open>handle_client\<close> with its nested pump
  \<^verbatim>\<open>forward\<close>, the reporter \<^verbatim>\<open>hashrate_monitor\<close> and \<^verbatim>\<open>main\<close>.
  The module state is \<^verbatim>\<open>connections\<close>, \<^verbatim>\<open>shares_submitted\<close> and
  \<^verbatim>\<open>start_time\<close>. The accept loop of \<^verbatim>\<open>main\<close> starts one thread running
  \<^verbatim>\<open>handle_client\<close> for each connection and one running \<^verbatim>\<open>hashrate_monitor\<close>;
  the properties below are about these and the pumps.

  A Python \<^verbatim>\<open>bytes\<close> value is a list of \<^typ>\<open>char\<close> (a \<^typ>\<open>char\<close> is one byte);
  a Python \<^verbatim>\<open>str\<close> is a list of code points.
\<close>

type_synonym bytes = "char list"
type_synonym pystr = "nat list"

definition str :: "string \<Rightarrow> pystr" where
  "str s = map of_char s"

subsection \<open>Library calls of the inspection step\<close>

subsubsection \<open>\<^verbatim>\<open>data.decode()\<close>: strict UTF-8\<close>

definition cont :: "nat \<Rightarrow> bool" where
  "cont b = (128 \<le> b \<and> b < 192)"

text \<open>
  The decoder rejects a stray continuation byte, an overlong form (lead bytes
  \<^verbatim>\<open>C0\<close>, \<^verbatim>\<open>C1\<close>, \<^verbatim>\<open>E0\<close> below \<^verbatim>\<open>A0\<close>, \<^verbatim>\<open>F0\<close> below \<^verbatim>\<open>90\<close>), a surrogate
  (\<^verbatim>\<open>ED\<close> from \<^verbatim>\<open>A0\<close>), a code point above \<^verbatim>\<open>10FFFF\<close> and a truncated
  sequence. \<open>None\<close> is \<^verbatim>\<open>UnicodeDecodeError\<close>.
\<close>

fun utf8 :: "nat list \<Rightarrow> pystr option" where
  "utf8 [] = Some []"
| "utf8 (b # bs) =
     (if b < 128 then map_option ((#) b) (utf8 bs)
      else if 194 \<le> b \<and> b < 224 then
        (case bs of
           b1 # r \<Rightarrow>
             if cont b1
             then map_option ((#) ((b - 192) * 64 + (b1 - 128))) (utf8 r)
             else None
         | _ \<Rightarrow> None)
      else if 224 \<le> b \<and> b < 240 then
        (case bs of
           b1 # b2 # r \<Rightarrow>
             if cont b1 \<and> cont b2 \<and> (b = 224 \<longrightarrow> 160 \<le> b1) \<and> (b = 237 \<longrightarrow> b1 < 160)
             then map_option ((#) ((b - 224) * 4096 + (b1 - 128) * 64 + (b2 - 128))) (utf8 r)
             else None
         | _ \<Rightarrow> None)
      else if 240 \<le> b \<and> b < 245 then
        (case bs of
           b1 # b2 # b3 # r \<Rightarrow>
             if cont b1 \<and> cont b2 \<and> cont b3 \<and> (b = 240 \<longrightarrow> 144 \<le> b1) \<and> (b = 244 \<longrightarrow> b1 < 144)
             then map_option
                    ((#) ((b - 240) * 262144 + (b1 - 128) * 4096 + (b2 - 128) * 64 + (b3 - 128)))
                    (utf8 r)
             else None
         | _ \<Rightarrow> None)
      else None)"

definition decode :: "bytes \<Rightarrow> pystr option" where
  "decode data = utf8 (map of_char data)"

subsubsection \<open>\<^verbatim>\<open>split('\n')\<close> and \<^verbatim>\<open>strip()\<close>\<close>

text \<open>\<^verbatim>\<open>s.split('\n')\<close> never returns the empty list: \<^verbatim>\<open>''.split('\n') == ['']\<close>.\<close>

fun split_nl :: "pystr \<Rightarrow> pystr list" where
  "split_nl [] = [[]]"
| "split_nl (c # cs) =
     (if c = 10 then [] # split_nl cs
      else (case split_nl cs of [] \<Rightarrow> [[c]] | l # ls \<Rightarrow> (c # l) # ls))"

text \<open>The code points that \<^verbatim>\<open>str.strip()\<close> removes (those with \<^verbatim>\<open>isspace()\<close>).\<close>

definition isspace :: "nat \<Rightarrow> bool" where
  "isspace c =
     ((9 \<le> c \<and> c \<le> 13) \<or> (28 \<le> c \<and> c \<le> 32) \<or> c = 133 \<or> c = 160 \<or> c = 5760
      \<or> (8192 \<le> c \<and> c \<le> 8202) \<or> c = 8232 \<or> c = 8233 \<or> c = 8239 \<or> c = 8287
      \<or> c = 12288)"

text \<open>The test \<^verbatim>\<open>if msg.strip():\<close> holds when some code point of the line is not space.\<close>

definition strip_nonempty :: "pystr \<Rightarrow> bool" where
  "strip_nonempty msg = (\<not> list_all isspace msg)"

subsubsection \<open>\<^verbatim>\<open>json.loads\<close>\<close>

datatype json =
    JObject "(pystr \<times> json) list"
  | JArray "json list"
  | JString pystr
  | JNumber pystr
  | JBool bool
  | JNull

datatype exn =
    UnicodeDecodeError
  | JSONDecodeError
  | RecursionError
  | AttributeError
  | TypeError
  | KeyError
  | OSError

datatype token =
    TLBrace | TRBrace | TLBrack | TRBrack | TComma | TColon
  | TString pystr
  | TNumber pystr
  | TTrue | TFalse | TNull
  | TBad

definition isdigit :: "nat \<Rightarrow> bool" where
  "isdigit c = (48 \<le> c \<and> c \<le> 57)"

definition hexval :: "nat \<Rightarrow> nat option" where
  "hexval c =
     (if 48 \<le> c \<and> c \<le> 57 then Some (c - 48)
      else if 97 \<le> c \<and> c \<le> 102 then Some (c - 87)
      else if 65 \<le> c \<and> c \<le> 70 then Some (c - 55)
      else None)"

text \<open>Four hexadecimal digits at the start of the input, as a number.\<close>

definition hex4 :: "pystr \<Rightarrow> nat option" where
  "hex4 cs =
     (case map hexval (take 4 cs) of
        [Some x, Some y, Some z, Some w] \<Rightarrow> Some (x * 4096 + y * 256 + z * 16 + w)
      | _ \<Rightarrow> None)"

text \<open>The one-letter escapes of a JSON string: the code point after the backslash.\<close>

definition backslash :: "nat \<Rightarrow> nat option" where
  "backslash e =
     (if e = 34 then Some 34 else if e = 92 then Some 92 else if e = 47 then Some 47
      else if e = 98 then Some 8 else if e = 102 then Some 12 else if e = 110 then Some 10
      else if e = 114 then Some 13 else if e = 116 then Some 9 else None)"

text \<open>
  \<open>uescape\<close> decodes what follows \<^verbatim>\<open>\u\<close>: four hexadecimal digits, and when they are a
  high surrogate followed by \<^verbatim>\<open>\u\<close> and a low surrogate (with at least one more code
  point after it), the pair joined into one code point. It returns the code point and the
  rest of the input.
\<close>

definition uescape :: "pystr \<Rightarrow> (nat \<times> pystr) option" where
  "uescape r =
     (case hex4 r of
        None \<Rightarrow> None
      | Some u \<Rightarrow>
          if 55296 \<le> u \<and> u < 56320 \<and> 6 < length (drop 4 r) \<and> take 2 (drop 4 r) = [92, 117]
          then
            (case hex4 (drop 6 r) of
               None \<Rightarrow> None
             | Some u2 \<Rightarrow>
                 if 56320 \<le> u2 \<and> u2 < 57344
                 then Some (65536 + (u - 55296) * 1024 + (u2 - 56320), drop 10 r)
                 else Some (u, drop 4 r))
          else Some (u, drop 4 r))"

definition escape :: "pystr \<Rightarrow> (nat \<times> pystr) option" where
  "escape cs =
     (case cs of
        [] \<Rightarrow> None
      | e # r \<Rightarrow>
          if e = 117 then uescape r
          else (case backslash e of None \<Rightarrow> None | Some x \<Rightarrow> Some (x, r)))"

lemma uescape_length: "uescape r = Some (x, r') \<Longrightarrow> length r' \<le> length r"
  by (auto simp: uescape_def split: option.splits if_splits)

lemma escape_length: "escape cs = Some (x, r') \<Longrightarrow> length r' < length cs"
  by (auto simp: escape_def split: list.splits option.splits if_splits dest: uescape_length)

text \<open>
  \<open>scanstring\<close> reads a string body after its opening quote (strict mode: a raw control
  character is an error) and returns the decoded string and the rest of the input.
\<close>

function scanstring :: "pystr \<Rightarrow> pystr \<Rightarrow> (pystr \<times> pystr) option" where
  "scanstring acc [] = None"
| "scanstring acc (c # cs) =
     (if c = 34 then Some (rev acc, cs)
      else if c = 92 then
        (case escape cs of
           None \<Rightarrow> None
         | Some (x, r) \<Rightarrow> scanstring (x # acc) r)
      else if c < 32 then None
      else scanstring (c # acc) cs)"
  by pat_completeness auto
termination
proof (relation "measure (\<lambda>(acc, cs). length cs)")
  fix acc :: pystr and c :: nat and cs x2 x r
  assume "escape cs = Some x2" and "(x, r) = x2"
  then have "escape cs = Some (x, r)" by simp
  then have "length r < length cs" by (rule escape_length)
  then show "((x # acc, r), (acc, c # cs)) \<in> measure (\<lambda>(acc, cs). length cs)" by simp
qed auto

lemma scanstring_length:
  "scanstring acc cs = Some (s, r) \<Longrightarrow> length r < length cs"
proof (induction acc cs rule: scanstring.induct)
  case (1 acc)
  then show ?case by simp
next
  case (2 acc c cs)
  show ?case
  proof (cases "c = 34")
    case True
    with "2.prems" show ?thesis by simp
  next
    case notq: False
    show ?thesis
    proof (cases "c = 92")
      case True
      with notq "2.prems" obtain x r1 where e: "escape cs = Some (x, r1)"
        and s: "scanstring (x # acc) r1 = Some (s, r)"
        by (auto split: option.splits)
      from "2.IH"(1) [OF notq True e refl s] have "length r < length r1" .
      moreover from e have "length r1 < length cs" by (rule escape_length)
      ultimately show ?thesis by simp
    next
      case False
      with notq "2.prems" have c: "\<not> c < 32" and s: "scanstring (c # acc) cs = Some (s, r)"
        by (auto split: if_splits)
      from "2.IH"(2) [OF notq False c s] show ?thesis by simp
    qed
  qed
qed

text \<open>
  The number pattern of the decoder,
  \<^verbatim>\<open>(-?(?:0|[1-9][0-9]*))(\.[0-9]+)?([eE][-+]?[0-9]+)?\<close>: \<open>number_len\<close> is the length of
  its match at the start of the input, 0 when there is none.
\<close>

definition digits :: "pystr \<Rightarrow> nat" where
  "digits cs = length (takeWhile isdigit cs)"

definition int_len :: "pystr \<Rightarrow> nat" where
  "int_len cs =
     (let m = (case cs of [] \<Rightarrow> 0 | c # _ \<Rightarrow> if c = 45 then 1 else 0)
      in case drop m cs of
           [] \<Rightarrow> 0
         | d # r \<Rightarrow> if d = 48 then m + 1 else if isdigit d then m + 1 + digits r else 0)"

definition frac_len :: "pystr \<Rightarrow> nat" where
  "frac_len cs =
     (case cs of
        [] \<Rightarrow> 0
      | c # r \<Rightarrow> if c = 46 \<and> 0 < digits r then 1 + digits r else 0)"

definition exp_len :: "pystr \<Rightarrow> nat" where
  "exp_len cs =
     (case cs of
        [] \<Rightarrow> 0
      | c # r \<Rightarrow>
          if c = 101 \<or> c = 69 then
            (let s = (case r of [] \<Rightarrow> 0 | x # _ \<Rightarrow> if x = 43 \<or> x = 45 then 1 else (0::nat))
             in if 0 < digits (drop s r) then 1 + s + digits (drop s r) else 0)
          else 0)"

definition number_len :: "pystr \<Rightarrow> nat" where
  "number_len cs =
     (let i = int_len cs
      in if i = 0 then 0
         else (let f = frac_len (drop i cs) in i + f + exp_len (drop (i + f) cs)))"

text \<open>
  The scanner of the decoder, as a lexer: white space is skipped between tokens, and the
  first place where no token starts ends the list with \<open>TBad\<close>. The constants
  \<^verbatim>\<open>NaN\<close>, \<^verbatim>\<open>Infinity\<close> and \<^verbatim>\<open>-Infinity\<close> are floats, like the numbers.
\<close>

function lex :: "pystr \<Rightarrow> token list" where
  "lex [] = []"
| "lex (c # cs) =
     (if c = 32 \<or> c = 9 \<or> c = 10 \<or> c = 13 then lex cs
      else if c = 123 then TLBrace # lex cs
      else if c = 125 then TRBrace # lex cs
      else if c = 91 then TLBrack # lex cs
      else if c = 93 then TRBrack # lex cs
      else if c = 44 then TComma # lex cs
      else if c = 58 then TColon # lex cs
      else if c = 34 then
        (case scanstring [] cs of
           None \<Rightarrow> [TBad]
         | Some (s, r) \<Rightarrow> TString s # lex r)
      else if take 4 (c # cs) = str ''null'' then TNull # lex (drop 3 cs)
      else if take 4 (c # cs) = str ''true'' then TTrue # lex (drop 3 cs)
      else if take 5 (c # cs) = str ''false'' then TFalse # lex (drop 4 cs)
      else if 0 < number_len (c # cs)
        then TNumber (take (number_len (c # cs)) (c # cs)) # lex (drop (number_len (c # cs) - 1) cs)
      else if take 3 (c # cs) = str ''NaN'' then TNumber (str ''NaN'') # lex (drop 2 cs)
      else if take 8 (c # cs) = str ''Infinity'' then TNumber (str ''Infinity'') # lex (drop 7 cs)
      else if take 9 (c # cs) = str ''-Infinity'' then TNumber (str ''-Infinity'') # lex (drop 8 cs)
      else [TBad])"
  by pat_completeness auto
termination
proof (relation "measure length")
  fix c cs x2 x y
  assume "scanstring [] cs = Some x2" and "(x, y) = x2"
  then have "scanstring [] cs = Some (x, y)" by simp
  then have "length y < length cs" by (rule scanstring_length)
  then show "(y, c # cs) \<in> measure length" by simp
qed auto

text \<open>
  The decoder itself, as a machine over the tokens with the open containers on a stack.
  \<open>rlim\<close> is the deepest nesting the interpreter's recursion limit lets the decoder enter:
  one container more raises \<^verbatim>\<open>RecursionError\<close>, which is not a
  \<^verbatim>\<open>JSONDecodeError\<close>. An object is the dictionary of its pairs. A number is kept as
  its text: the source never looks at its value, and a chunk of at most 4096 bytes cannot
  reach the interpreter's limit on the digits of an integer.
\<close>

datatype frame =
    FArray "json list"
  | FObject "(pystr \<times> json) list" "pystr option"

datatype pmode = PValue | PValueOrEnd | PKeyOrEnd | PKey | PColon | PAfter

datatype pstate = Parsing pmode "frame list" | Done json | Failed exn

text \<open>A value is complete: it goes into the innermost open container, or is the result.\<close>

definition finish :: "json \<Rightarrow> frame list \<Rightarrow> pstate" where
  "finish v st =
     (case st of
        [] \<Rightarrow> Done v
      | FArray xs # r \<Rightarrow> Parsing PAfter (FArray (v # xs) # r)
      | FObject kvs None # r \<Rightarrow> Failed JSONDecodeError
      | FObject kvs (Some k) # r \<Rightarrow> Parsing PAfter (FObject ((k, v) # kvs) None # r))"

text \<open>A value is expected and the token \<open>t\<close> comes.\<close>

definition value_token :: "nat \<Rightarrow> token \<Rightarrow> frame list \<Rightarrow> pstate" where
  "value_token rlim t st =
     (case t of
        TString s \<Rightarrow> finish (JString s) st
      | TNumber n \<Rightarrow> finish (JNumber n) st
      | TTrue \<Rightarrow> finish (JBool True) st
      | TFalse \<Rightarrow> finish (JBool False) st
      | TNull \<Rightarrow> finish JNull st
      | TLBrack \<Rightarrow>
          if length st < rlim then Parsing PValueOrEnd (FArray [] # st) else Failed RecursionError
      | TLBrace \<Rightarrow>
          if length st < rlim then Parsing PKeyOrEnd (FObject [] None # st) else Failed RecursionError
      | _ \<Rightarrow> Failed JSONDecodeError)"

text \<open>
  \<^verbatim>\<open>dict(pairs)\<close>: a key that comes twice keeps its first place and takes its last
  value.
\<close>

fun dict_set :: "(pystr \<times> json) list \<Rightarrow> pystr \<Rightarrow> json \<Rightarrow> (pystr \<times> json) list" where
  "dict_set [] k v = [(k, v)]"
| "dict_set ((k', v') # kvs) k v =
     (if k' = k then (k', v) # kvs else (k', v') # dict_set kvs k v)"

definition dict :: "(pystr \<times> json) list \<Rightarrow> (pystr \<times> json) list" where
  "dict pairs = foldl (\<lambda>d (k, v). dict_set d k v) [] pairs"

text \<open>The innermost open container is closed by \<open>t\<close>.\<close>

definition close_token :: "token \<Rightarrow> frame list \<Rightarrow> pstate" where
  "close_token t st =
     (case st of
        [] \<Rightarrow> Failed JSONDecodeError
      | FArray xs # r \<Rightarrow> if t = TRBrack then finish (JArray (rev xs)) r else Failed JSONDecodeError
      | FObject kvs k # r \<Rightarrow>
          if t = TRBrace then finish (JObject (dict (rev kvs))) r else Failed JSONDecodeError)"

text \<open>A key of the innermost open object.\<close>

definition key_token :: "token \<Rightarrow> frame list \<Rightarrow> pstate" where
  "key_token t st =
     (case (t, st) of
        (TString s, FObject kvs k # r) \<Rightarrow> Parsing PColon (FObject kvs (Some s) # r)
      | _ \<Rightarrow> Failed JSONDecodeError)"

definition step :: "nat \<Rightarrow> pstate \<Rightarrow> token \<Rightarrow> pstate" where
  "step rlim p t =
     (case p of
        Done v \<Rightarrow> Failed JSONDecodeError
      | Failed e \<Rightarrow> Failed e
      | Parsing m st \<Rightarrow>
          (case m of
             PValue \<Rightarrow> value_token rlim t st
           | PValueOrEnd \<Rightarrow> if t = TRBrack then close_token t st else value_token rlim t st
           | PKeyOrEnd \<Rightarrow> if t = TRBrace then close_token t st else key_token t st
           | PKey \<Rightarrow> key_token t st
           | PColon \<Rightarrow> if t = TColon then Parsing PValue st else Failed JSONDecodeError
           | PAfter \<Rightarrow>
               if t = TComma
               then (case st of
                       [] \<Rightarrow> Failed JSONDecodeError
                     | FArray xs # r \<Rightarrow> Parsing PValue st
                     | FObject kvs k # r \<Rightarrow> Parsing PKey st)
               else close_token t st))"

definition json_loads :: "nat \<Rightarrow> pystr \<Rightarrow> exn + json" where
  "json_loads rlim s =
     (case foldl (step rlim) (Parsing PValue []) (lex s) of
        Done v \<Rightarrow> Inr v
      | Failed e \<Rightarrow> Inl e
      | Parsing m st \<Rightarrow> Inl JSONDecodeError)"

subsubsection \<open>The dictionary and container operations on a decoded payload\<close>

text \<open>The value of a key in a dictionary.\<close>

definition dict_lookup :: "(pystr \<times> json) list \<Rightarrow> pystr \<Rightarrow> json option" where
  "dict_lookup kvs k = map_of kvs k"

text \<open>\<^verbatim>\<open>payload.get(k, d)\<close>: only a dictionary has the method \<^verbatim>\<open>get\<close>.\<close>

definition payload_get :: "json \<Rightarrow> pystr \<Rightarrow> json \<Rightarrow> exn + json" where
  "payload_get payload k d =
     (case payload of
        JObject kvs \<Rightarrow> Inr (case dict_lookup kvs k of None \<Rightarrow> d | Some v \<Rightarrow> v)
      | _ \<Rightarrow> Inl AttributeError)"

fun substring :: "pystr \<Rightarrow> pystr \<Rightarrow> bool" where
  "substring k [] = (k = [])"
| "substring k (c # cs) = (take (length k) (c # cs) = k \<or> substring k cs)"

text \<open>
  \<^verbatim>\<open>k in payload\<close>: a key of a dictionary, an element of a list, a substring of a
  string; \<^verbatim>\<open>TypeError\<close> on a number, a boolean or \<^verbatim>\<open>None\<close>.
\<close>

definition py_in :: "pystr \<Rightarrow> json \<Rightarrow> exn + bool" where
  "py_in k payload =
     (case payload of
        JObject kvs \<Rightarrow> Inr (k \<in> set (map fst kvs))
      | JArray xs \<Rightarrow> Inr (JString k \<in> set xs)
      | JString t \<Rightarrow> Inr (substring k t)
      | _ \<Rightarrow> Inl TypeError)"

text \<open>\<^verbatim>\<open>payload[k]\<close> with a string \<open>k\<close>.\<close>

definition getitem :: "json \<Rightarrow> pystr \<Rightarrow> exn + json" where
  "getitem payload k =
     (case payload of
        JObject kvs \<Rightarrow> (case dict_lookup kvs k of None \<Rightarrow> Inl KeyError | Some v \<Rightarrow> Inr v)
      | _ \<Rightarrow> Inl TypeError)"

text \<open>\<^verbatim>\<open>isinstance(result, dict) and "job" in result\<close>\<close>

definition has_job :: "json \<Rightarrow> bool" where
  "has_job result =
     (case result of JObject kvs \<Rightarrow> str ''job'' \<in> set (map fst kvs) | _ \<Rightarrow> False)"

subsection \<open>The module state and the effects of the relay\<close>

type_synonym sock = nat

datatype peer = Client | Pool

datatype level = DEBUG | INFO | ERROR

text \<open>
  The log calls of the module, one constructor for each format string, with the values
  the format string is given.
\<close>

datatype message =
    ConnectingToPool
  | ConnectedToPool
  | FailedToConnect exn
  | ConnectionClosed peer
  | ClientToPool json
  | ShareSubmitted nat
  | ShareDetails json
  | ClientMessage json json
  | ErrorParsingClient exn
  | ReceivedNewJob
  | ErrorParsingPool exn
  | Forwarded peer peer
  | ConnectionError peer peer exn
  | ClosedSocket peer
  | AddedConnection nat
  | EstimatedHashrate real nat

text \<open>
  What the module does to the outside and to its registry, in the order it does it: log
  calls, \<^verbatim>\<open>connect\<close>, \<^verbatim>\<open>sendall\<close> and \<^verbatim>\<open>close\<close> on a socket,
  the start of a pump thread \<^verbatim>\<open>forward(src, dst, is_from_client)\<close>, the two writes of
  the shared state, \<^verbatim>\<open>connections.append\<close> and \<^verbatim>\<open>shares_submitted += 1\<close>, and the
  entry and exit of a \<^verbatim>\<open>with lock\<close> block.
\<close>

datatype event =
    Log level message
  | Connect sock
  | SendAll sock bytes
  | Close sock
  | Start sock sock bool
  | Append "sock \<times> sock"
  | Increment
  | Acquire
  | Release

record state =
  connections :: "(sock \<times> sock) list"
  shares_submitted :: nat
  trace :: "event list"

definition emit :: "event \<Rightarrow> state \<Rightarrow> state" where
  "emit e s = s\<lparr>trace := trace s @ [e]\<rparr>"

definition logging :: "level \<Rightarrow> message \<Rightarrow> state \<Rightarrow> state" where
  "logging l m s = emit (Log l m) s"

subsection \<open>The inspection step of \<^verbatim>\<open>forward\<close>\<close>

text \<open>
  The loop \<^verbatim>\<open>for msg in messages\<close> of the client direction. The result is the
  exception that leaves the loop, if any, and the state reached: a share counted before
  the exception stays counted. Only \<^verbatim>\<open>json.JSONDecodeError\<close> is caught inside the
  loop.
\<close>

fun client_messages :: "nat \<Rightarrow> pystr list \<Rightarrow> state \<Rightarrow> exn option \<times> state" where
  "client_messages rlim [] s = (None, s)"
| "client_messages rlim (msg # msgs) s =
     (if strip_nonempty msg then
        (case json_loads rlim msg of
           Inl e \<Rightarrow> if e = JSONDecodeError then client_messages rlim msgs s else (Some e, s)
         | Inr payload \<Rightarrow>
             (case payload_get payload (str ''method'') (JString (str ''unknown'')) of
                Inl e \<Rightarrow> (Some e, s)
              | Inr method \<Rightarrow>
                  (let s1 = logging INFO (ClientToPool method) s;
                       s2 = (if method = JString (str ''submit'')
                             then (let a = emit Acquire s1;
                                       i = emit Increment
                                             (a\<lparr>shares_submitted := shares_submitted a + 1\<rparr>);
                                       l = logging INFO (ShareDetails payload)
                                             (logging INFO (ShareSubmitted (shares_submitted i)) i)
                                   in emit Release l)
                             else s1);
                       s3 = logging INFO (ClientMessage method payload) s2
                   in client_messages rlim msgs s3)))
      else client_messages rlim msgs s)"

text \<open>The loop of the pool direction.\<close>

fun pool_messages :: "nat \<Rightarrow> pystr list \<Rightarrow> state \<Rightarrow> exn option \<times> state" where
  "pool_messages rlim [] s = (None, s)"
| "pool_messages rlim (msg # msgs) s =
     (if strip_nonempty msg then
        (case json_loads rlim msg of
           Inl e \<Rightarrow> if e = JSONDecodeError then pool_messages rlim msgs s else (Some e, s)
         | Inr payload \<Rightarrow>
             (case py_in (str ''result'') payload of
                Inl e \<Rightarrow> (Some e, s)
              | Inr False \<Rightarrow> pool_messages rlim msgs s
              | Inr True \<Rightarrow>
                  (case getitem payload (str ''result'') of
                     Inl e \<Rightarrow> (Some e, s)
                   | Inr result \<Rightarrow>
                       pool_messages rlim msgs
                         (if has_job result then logging INFO ReceivedNewJob s else s))))
      else pool_messages rlim msgs s)"

text \<open>
  The two branches of \<^verbatim>\<open>if is_from_client\<close>: the chunk is decoded as a whole, split
  at the newlines and every piece goes through the loop; any exception is logged by the
  outer \<^verbatim>\<open>except Exception\<close>.
\<close>

definition inspect_client :: "nat \<Rightarrow> bytes \<Rightarrow> state \<Rightarrow> state" where
  "inspect_client rlim data s =
     (case decode data of
        None \<Rightarrow> logging ERROR (ErrorParsingClient UnicodeDecodeError) s
      | Some t \<Rightarrow>
          (case client_messages rlim (split_nl t) s of
             (None, s') \<Rightarrow> s'
           | (Some e, s') \<Rightarrow> logging ERROR (ErrorParsingClient e) s'))"

definition inspect_pool :: "nat \<Rightarrow> bytes \<Rightarrow> state \<Rightarrow> state" where
  "inspect_pool rlim data s =
     (case decode data of
        None \<Rightarrow> logging ERROR (ErrorParsingPool UnicodeDecodeError) s
      | Some t \<Rightarrow>
          (case pool_messages rlim (split_nl t) s of
             (None, s') \<Rightarrow> s'
           | (Some e, s') \<Rightarrow> logging ERROR (ErrorParsingPool e) s'))"

subsection \<open>The pump \<^verbatim>\<open>forward\<close>\<close>

text \<open>
  What the two sockets do is given to the pump as a script, one entry for each turn of
  \<^verbatim>\<open>while True\<close>: \<open>Received data ok\<close> when \<^verbatim>\<open>src.recv(4096)\<close> returns \<open>data\<close>
  (empty when the peer has closed), with \<open>ok\<close> telling whether \<^verbatim>\<open>dst.sendall(data)\<close>
  returns or raises; \<open>RecvError\<close> when \<^verbatim>\<open>recv\<close> raises. A script that ends leaves the
  pump waiting in \<^verbatim>\<open>recv\<close>: it is \<open>Running\<close>. The event \<open>SendAll dst data\<close> records
  the call, whether it returns or raises.
\<close>

datatype turn = Received bytes bool | RecvError

datatype status = Running | Stopped

definition src_name :: "bool \<Rightarrow> peer" where
  "src_name is_from_client = (if is_from_client then Client else Pool)"

definition dst_name :: "bool \<Rightarrow> peer" where
  "dst_name is_from_client = (if is_from_client then Pool else Client)"

fun forward_loop ::
  "nat \<Rightarrow> sock \<Rightarrow> sock \<Rightarrow> bool \<Rightarrow> turn list \<Rightarrow> state \<Rightarrow> status \<times> state" where
  "forward_loop rlim src dst is_from_client [] s = (Running, s)"
| "forward_loop rlim src dst is_from_client (RecvError # ts) s =
     (Stopped,
      logging ERROR (ConnectionError (src_name is_from_client) (dst_name is_from_client) OSError) s)"
| "forward_loop rlim src dst is_from_client (Received data ok # ts) s =
     (if data = [] then (Stopped, logging INFO (ConnectionClosed (src_name is_from_client)) s)
      else
        (let s1 = (if is_from_client then inspect_client rlim data s
                   else inspect_pool rlim data s);
             s2 = emit (SendAll dst data) s1
         in if ok
            then forward_loop rlim src dst is_from_client ts
                   (logging DEBUG (Forwarded (src_name is_from_client) (dst_name is_from_client)) s2)
            else (Stopped,
                  logging ERROR
                    (ConnectionError (src_name is_from_client) (dst_name is_from_client) OSError)
                    s2)))"

text \<open>
  \<^verbatim>\<open>try: sock.close(); logging.debug(...) except: pass\<close>. \<open>closes sock\<close> tells whether
  \<^verbatim>\<open>close\<close> returns on that socket; when it raises, the log call is skipped.
\<close>

definition close_socket :: "(sock \<Rightarrow> bool) \<Rightarrow> sock \<Rightarrow> peer \<Rightarrow> state \<Rightarrow> state" where
  "close_socket closes sock name s =
     (let s1 = emit (Close sock) s
      in if closes sock then logging DEBUG (ClosedSocket name) s1 else s1)"

definition forward ::
  "nat \<Rightarrow> (sock \<Rightarrow> bool) \<Rightarrow> sock \<Rightarrow> sock \<Rightarrow> bool \<Rightarrow> turn list \<Rightarrow> state \<Rightarrow> status \<times> state" where
  "forward rlim closes src dst is_from_client ts s =
     (case forward_loop rlim src dst is_from_client ts s of
        (Running, s') \<Rightarrow> (Running, s')
      | (Stopped, s') \<Rightarrow>
          (Stopped,
           close_socket closes dst (dst_name is_from_client)
             (close_socket closes src (src_name is_from_client) s')))"

subsection \<open>\<^verbatim>\<open>handle_client\<close> and \<^verbatim>\<open>hashrate_monitor\<close>\<close>

text \<open>
  \<open>pool_socket\<close> is the socket that \<^verbatim>\<open>handle_client\<close> creates, \<open>connect_ok\<close> tells
  whether \<^verbatim>\<open>pool_socket.connect\<close> returns. The two pump threads run on their own once
  started; \<^verbatim>\<open>handle_client\<close> goes on to the registry.
\<close>

definition handle_client :: "sock \<Rightarrow> sock \<Rightarrow> bool \<Rightarrow> state \<Rightarrow> state" where
  "handle_client client_socket pool_socket connect_ok s =
     (let s1 = emit (Connect pool_socket) (logging INFO ConnectingToPool s)
      in if \<not> connect_ok
         then emit (Close client_socket) (logging ERROR (FailedToConnect OSError) s1)
         else
           (let s2 = logging INFO ConnectedToPool s1;
                s3 = emit (Start client_socket pool_socket True) s2;
                s4 = emit (Start pool_socket client_socket False) s3;
                a = emit Acquire s4;
                s5 = emit (Append (client_socket, pool_socket))
                       (a\<lparr>connections := connections a @ [(client_socket, pool_socket)]\<rparr>);
                s6 = logging INFO (AddedConnection (length (connections s5))) s5
            in emit Release s6))"

text \<open>
  One wake of \<^verbatim>\<open>hashrate_monitor\<close>, after \<^verbatim>\<open>time.sleep(10)\<close>: \<open>now\<close> is what
  \<^verbatim>\<open>time.time()\<close> returns. The times and the rate are floats in the source and real
  numbers here.
\<close>

definition hashrate_monitor :: "real \<Rightarrow> real \<Rightarrow> state \<Rightarrow> state" where
  "hashrate_monitor start_time now s =
     (let elapsed = now - start_time;
          a = emit Acquire s;
          current_connections = length (connections a);
          current_shares = shares_submitted a;
          r = emit Release a
      in if elapsed > 0
         then logging INFO
                (EstimatedHashrate (real current_shares / elapsed * 60) current_connections) r
         else r)"

subsection \<open>What the claims speak of\<close>

text \<open>
  A line decodes as JSON with the field \<^verbatim>\<open>method\<close> equal to the string
  \<^verbatim>\<open>"submit"\<close>.
\<close>

definition submit_line :: "nat \<Rightarrow> pystr \<Rightarrow> bool" where
  "submit_line rlim msg =
     (case json_loads rlim msg of
        Inl e \<Rightarrow> False
      | Inr payload \<Rightarrow>
          (case payload of
             JObject kvs \<Rightarrow> dict_lookup kvs (str ''method'') = Some (JString (str ''submit''))
           | _ \<Rightarrow> False))"


text \<open>
  A line ends the loop of the client direction with an exception: it is not blank and it
  either makes the decoder raise something else than \<^verbatim>\<open>JSONDecodeError\<close> or decodes
  to a value that is not a dictionary. \<open>reached\<close> are the lines the loop gets through.
\<close>

definition aborts :: "nat \<Rightarrow> pystr \<Rightarrow> bool" where
  "aborts rlim msg =
     (strip_nonempty msg \<and>
      (case json_loads rlim msg of
         Inl e \<Rightarrow> e \<noteq> JSONDecodeError
       | Inr payload \<Rightarrow> (case payload of JObject kvs \<Rightarrow> False | _ \<Rightarrow> True)))"

definition reached :: "nat \<Rightarrow> pystr list \<Rightarrow> pystr list" where
  "reached rlim msgs = takeWhile (\<lambda>m. \<not> aborts rlim m) msgs"

text \<open>The payloads of the \<^verbatim>\<open>sendall\<close> calls on a socket, in order.\<close>

fun sent :: "sock \<Rightarrow> event list \<Rightarrow> bytes list" where
  "sent dst [] = []"
| "sent dst (SendAll d data # es) = (if d = dst then data # sent dst es else sent dst es)"
| "sent dst (e # es) = sent dst es"

text \<open>
  The chunks a pump reads from its source while it runs: the non-empty results of
  \<^verbatim>\<open>recv\<close>, up to the first empty one, the first error of \<^verbatim>\<open>recv\<close> or the first
  failed \<^verbatim>\<open>sendall\<close>.
\<close>

fun chunks_read :: "turn list \<Rightarrow> bytes list" where
  "chunks_read [] = []"
| "chunks_read (RecvError # ts) = []"
| "chunks_read (Received data ok # ts) =
     (if data = [] then [] else data # (if ok then chunks_read ts else []))"

text \<open>
  What the code counts in one chunk of the client direction: the submit lines among the
  lines its loop reaches, none when the chunk is not UTF-8. This follows the code, not the
  number of submit lines in the chunk.
\<close>

definition submits :: "nat \<Rightarrow> bytes \<Rightarrow> nat" where
  "submits rlim data =
     (case decode data of
        None \<Rightarrow> 0
      | Some t \<Rightarrow> length (filter (submit_line rlim) (reached rlim (split_nl t))))"

text \<open>The sockets that \<^verbatim>\<open>close\<close> was called on, in order.\<close>

fun closed :: "event list \<Rightarrow> sock list" where
  "closed [] = []"
| "closed (Close sock # es) = sock # closed es"
| "closed (e # es) = closed es"

text \<open>The messages logged with \<^verbatim>\<open>logging.error\<close>, in order.\<close>

fun errors :: "event list \<Rightarrow> message list" where
  "errors [] = []"
| "errors (Log ERROR m # es) = m # errors es"
| "errors (e # es) = errors es"

text \<open>The pump threads started, in order.\<close>

fun started :: "event list \<Rightarrow> (sock \<times> sock \<times> bool) list" where
  "started [] = []"
| "started (Start src dst c # es) = (src, dst, c) # started es"
| "started (e # es) = started es"

text \<open>
  A turn that ends the loop of a pump: \<^verbatim>\<open>recv\<close> raises or returns no bytes, or
  \<^verbatim>\<open>sendall\<close> raises.
\<close>

fun stops :: "turn \<Rightarrow> bool" where
  "stops RecvError = True"
| "stops (Received data ok) = (data = [] \<or> \<not> ok)"

text \<open>All the log calls, in order.\<close>

fun logged :: "event list \<Rightarrow> (level \<times> message) list" where
  "logged [] = []"
| "logged (Log l m # es) = (l, m) # logged es"
| "logged (e # es) = logged es"

text \<open>
  The lock along a trace: \<open>Some h\<close> while every write of the shared state so far was made
  inside a \<^verbatim>\<open>with lock\<close> block, with \<open>h\<close> telling whether a block is open; \<open>None\<close>
  after a write outside a block, a block entered inside a block or an exit without an entry.
  \<open>lock_discipline\<close> holds of a trace that keeps to the lock and ends outside a block.
\<close>

fun scan :: "bool option \<Rightarrow> event \<Rightarrow> bool option" where
  "scan None e = None"
| "scan (Some h) Acquire = (if h then None else Some True)"
| "scan (Some h) Release = (if h then Some False else None)"
| "scan (Some h) Increment = (if h then Some True else None)"
| "scan (Some h) (Append x) = (if h then Some True else None)"
| "scan (Some h) e = Some h"

definition lock_discipline :: "event list \<Rightarrow> bool" where
  "lock_discipline es = (foldl scan (Some False) es = Some False)"

text \<open>The state \<open>s\<close> with another registry and with events put before its trace.\<close>

definition rebase :: "(sock \<times> sock) list \<Rightarrow> event list \<Rightarrow> state \<Rightarrow> state" where
  "rebase c pre s = s\<lparr>connections := c, trace := pre @ trace s\<rparr>"

text \<open>The event \<open>a\<close> occurs, and \<open>b\<close> occurs after its first occurrence.\<close>

definition precedes :: "event \<Rightarrow> event \<Rightarrow> event list \<Rightarrow> bool" where
  "precedes a b es = (b \<in> set (tl (dropWhile (\<lambda>e. e \<noteq> a) es)))"

text \<open>The module state when the process starts.\<close>

definition initial :: state where
  "initial = \<lparr>connections = [], shares_submitted = 0, trace = []\<rparr>"

section \<open>Properties\<close>

subsection \<open>The decoder on blank lines\<close>

lemma lex_no_token:
  assumes "c \<noteq> 32" "c \<noteq> 9" "c \<noteq> 10" "c \<noteq> 13" "c \<noteq> 123" "c \<noteq> 125" "c \<noteq> 91" "c \<noteq> 93"
    "c \<noteq> 44" "c \<noteq> 58" "c \<noteq> 34" "c \<noteq> 110" "c \<noteq> 116" "c \<noteq> 102" "c \<noteq> 45" "c \<noteq> 78"
    "c \<noteq> 73" "\<not> isdigit c"
  shows "lex (c # cs) = [TBad]"
proof -
  from assms have "c \<noteq> 48" by (auto simp: isdigit_def)
  with assms show ?thesis by (simp add: str_def number_len_def int_len_def)
qed

lemma isspace_cases:
  "isspace c \<Longrightarrow> c = 9 \<or> c = 10 \<or> c = 11 \<or> c = 12 \<or> c = 13 \<or> c = 28 \<or> c = 29 \<or> c = 30 \<or> c = 31
     \<or> c = 32 \<or> 133 \<le> c"
  unfolding isspace_def by arith

lemma lex_space: "list_all isspace cs \<Longrightarrow> lex cs = [] \<or> lex cs = [TBad]"
proof (induction cs)
  case Nil
  then show ?case by simp
next
  case (Cons c cs)
  then have sp: "isspace c" and rest: "lex cs = [] \<or> lex cs = [TBad]" by simp_all
  show ?case
  proof (cases "c = 32 \<or> c = 9 \<or> c = 10 \<or> c = 13")
    case True
    with rest show ?thesis by auto
  next
    case False
    with isspace_cases [OF sp] have "c = 11 \<or> c = 12 \<or> c = 28 \<or> c = 29 \<or> c = 30 \<or> c = 31 \<or> 133 \<le> c"
      by arith
    then have "lex (c # cs) = [TBad]"
      by (intro lex_no_token) (auto simp: isdigit_def)
    then show ?thesis by simp
  qed
qed

lemma loads_space: "list_all isspace cs \<Longrightarrow> json_loads rlim cs = Inl JSONDecodeError"
  using lex_space [of cs]
  by (auto simp: json_loads_def step_def value_token_def)

subsection \<open>The share counter in the two loops\<close>

lemma emit_simps [simp]:
  "shares_submitted (emit e s) = shares_submitted s"
  "connections (emit e s) = connections s"
  "trace (emit e s) = trace s @ [e]"
  by (simp_all add: emit_def)

lemma logging_simps [simp]:
  "shares_submitted (logging l m s) = shares_submitted s"
  "connections (logging l m s) = connections s"
  "trace (logging l m s) = trace s @ [Log l m]"
  by (simp_all add: logging_def)

lemma unknown_not_submit: "str ''unknown'' \<noteq> str ''submit''"
  by (simp add: str_def)


lemma submit_line_not_aborts: "submit_line rlim msg \<Longrightarrow> \<not> aborts rlim msg"
  by (auto simp: submit_line_def aborts_def split: sum.splits json.splits)

lemma client_messages_step:
  "client_messages rlim (msg # msgs) s =
     (if aborts rlim msg then client_messages rlim [msg] s
      else client_messages rlim msgs (snd (client_messages rlim [msg] s)))"
  by (auto simp: aborts_def payload_get_def Let_def split: sum.splits json.splits)

lemma client_messages_one_shares:
  "shares_submitted (snd (client_messages rlim [msg] s)) =
     shares_submitted s + (if submit_line rlim msg then 1 else 0)"
  using loads_space [of msg rlim] unknown_not_submit
  by (auto simp: submit_line_def payload_get_def strip_nonempty_def Let_def
      split: sum.splits json.splits option.splits)

lemma client_messages_shares:
  "shares_submitted (snd (client_messages rlim msgs s)) =
     shares_submitted s + length (filter (submit_line rlim) (reached rlim msgs))"
proof (induction msgs arbitrary: s)
  case Nil
  then show ?case by (simp add: reached_def)
next
  case (Cons msg msgs)
  show ?case
  proof (cases "aborts rlim msg")
    case True
    then have "\<not> submit_line rlim msg" using submit_line_not_aborts by blast
    with True show ?thesis
      by (subst client_messages_step) (simp add: reached_def client_messages_one_shares del: client_messages.simps)
  next
    case False
    then show ?thesis
      using Cons.IH [of "snd (client_messages rlim [msg] s)"]
      by (subst client_messages_step) (simp add: reached_def client_messages_one_shares del: client_messages.simps)
  qed
qed

subsection \<open>The pool direction\<close>

lemma pool_messages_shares:
  "shares_submitted (snd (pool_messages rlim msgs s)) = shares_submitted s"
  by (induction msgs arbitrary: s) (auto split: sum.splits bool.splits)

lemma pool_messages_connections:
  "connections (snd (pool_messages rlim msgs s)) = connections s"
  by (induction msgs arbitrary: s) (auto split: sum.splits bool.splits)

lemma inspect_pool_alt:
  "inspect_pool rlim data s =
     (case decode data of
        None \<Rightarrow> logging ERROR (ErrorParsingPool UnicodeDecodeError) s
      | Some t \<Rightarrow>
          (case fst (pool_messages rlim (split_nl t) s) of
             None \<Rightarrow> snd (pool_messages rlim (split_nl t) s)
           | Some e \<Rightarrow> logging ERROR (ErrorParsingPool e) (snd (pool_messages rlim (split_nl t) s))))"
  by (simp add: inspect_pool_def split: option.splits prod.splits)

lemma inspect_client_alt:
  "inspect_client rlim data s =
     (case decode data of
        None \<Rightarrow> logging ERROR (ErrorParsingClient UnicodeDecodeError) s
      | Some t \<Rightarrow>
          (case fst (client_messages rlim (split_nl t) s) of
             None \<Rightarrow> snd (client_messages rlim (split_nl t) s)
           | Some e \<Rightarrow>
               logging ERROR (ErrorParsingClient e) (snd (client_messages rlim (split_nl t) s))))"
  by (simp add: inspect_client_def split: option.splits prod.splits)

lemma inspect_pool_shares: "shares_submitted (inspect_pool rlim data s) = shares_submitted s"
  by (simp add: inspect_pool_alt pool_messages_shares split: option.splits)

lemma close_socket_simps [simp]:
  "shares_submitted (close_socket closes sock name s) = shares_submitted s"
  "connections (close_socket closes sock name s) = connections s"
  by (simp_all add: close_socket_def Let_def)

lemma forward_loop_pool_shares:
  "shares_submitted (snd (forward_loop rlim src dst False ts s)) = shares_submitted s"
  by (induction rlim src dst False ts s rule: forward_loop.induct)
     (simp_all add: Let_def inspect_pool_shares)

lemma forward_pool_shares:
  "shares_submitted (snd (forward rlim closes src dst False ts s)) = shares_submitted s"
  using forward_loop_pool_shares [of rlim src dst ts s]
  by (auto simp: forward_def split: prod.splits status.splits)

text \<open>The definitions that evaluate the decoder on a concrete line.\<close>

lemmas ev = str_def number_len_def int_len_def frac_len_def exp_len_def digits_def isdigit_def
  json_loads_def step_def value_token_def close_token_def key_token_def finish_def escape_def uescape_def
  hex4_def hexval_def backslash_def dict_def

text \<open>
  Claim C10. Inspecting a buffer in the from-upstream direction never changes the share
  counter, whatever the buffer holds, and so a whole pump of that direction never changes
  it; in the from-client direction a line that does not decode to an object whose
  \<^verbatim>\<open>method\<close> is exactly the string \<^verbatim>\<open>"submit"\<close> leaves the counter as it is.
\<close>

theorem pool_direction_never_counts:
  "shares_submitted (inspect_pool rlim data s) = shares_submitted s \<and>
   shares_submitted (snd (forward rlim closes src dst False ts s)) = shares_submitted s \<and>
   (\<not> submit_line rlim msg \<longrightarrow>
      shares_submitted (snd (client_messages rlim [msg] s)) = shares_submitted s)"
  by (simp add: inspect_pool_shares forward_pool_shares client_messages_one_shares
      del: client_messages.simps)

theorem pool_direction_never_counts_witness:
  "\<not> submit_line 1000 (str ''{\"method\":\"Submit\"}'') \<and>
   shares_submitted (snd (client_messages 1000 [str ''{\"method\":\"Submit\"}''] initial)) = 0 \<and>
   shares_submitted (inspect_pool 1000 (''{\"method\":\"submit\"}'' @ [CHR 0x0A]) initial) = 0"
proof -
  have n: "\<not> submit_line 1000 (str ''{\"method\":\"Submit\"}'')"
    by (simp add: submit_line_def dict_lookup_def ev)
  have i: "shares_submitted initial = 0" by (simp add: initial_def)
  from pool_direction_never_counts
         [of 1000 "''{\"method\":\"submit\"}'' @ [CHR 0x0A]" initial _ _ _ _ "str ''{\"method\":\"Submit\"}''"]
       n i
  show ?thesis by simp
qed

subsection \<open>The client direction\<close>

lemma inspect_client_shares:
  "shares_submitted (inspect_client rlim data s) = shares_submitted s + submits rlim data"
  by (simp add: inspect_client_alt client_messages_shares submits_def split: option.splits)







subsection \<open>Reads are inspected one by one\<close>

lemma split_nl_no_newline: "10 \<notin> set t \<Longrightarrow> split_nl t = [t]"
  by (induction t) auto

lemma submits_one_line:
  assumes "decode data = Some t" and "10 \<notin> set t"
  shows "submits rlim data = (if submit_line rlim t then 1 else 0)"
  using assms submit_line_not_aborts [of rlim t]
  by (auto simp: submits_def split_nl_no_newline reached_def)



subsection \<open>Lines and chunks that do not decode\<close>

lemma client_messages_skips:
  "json_loads rlim bad = Inl JSONDecodeError \<Longrightarrow>
   client_messages rlim (pre @ bad # post) s = client_messages rlim (pre @ post) s"
  by (induction pre arbitrary: s) (auto simp: Let_def split: sum.splits)

lemma pool_messages_skips:
  "json_loads rlim bad = Inl JSONDecodeError \<Longrightarrow>
   pool_messages rlim (pre @ bad # post) s = pool_messages rlim (pre @ post) s"
  by (induction pre arbitrary: s) (auto simp: Let_def split: sum.splits bool.splits)

lemma sent_append: "sent dst (es @ fs) = sent dst es @ sent dst fs"
  by (induction dst es rule: sent.induct) auto

lemma sent_emit_log [simp]: "sent dst (trace (logging l m s)) = sent dst (trace s)"
  by (simp add: sent_append)

lemma client_messages_sent:
  "sent dst (trace (snd (client_messages rlim msgs s))) = sent dst (trace s)"
  by (induction msgs arbitrary: s) (auto simp: Let_def sent_append split: sum.splits)

lemma pool_messages_sent:
  "sent dst (trace (snd (pool_messages rlim msgs s))) = sent dst (trace s)"
  by (induction msgs arbitrary: s) (auto simp: Let_def sent_append split: sum.splits bool.splits)

lemma inspect_client_sent: "sent dst (trace (inspect_client rlim data s)) = sent dst (trace s)"
  by (simp add: inspect_client_alt client_messages_sent sent_append split: option.splits)

lemma inspect_pool_sent: "sent dst (trace (inspect_pool rlim data s)) = sent dst (trace s)"
  by (simp add: inspect_pool_alt pool_messages_sent sent_append split: option.splits)

lemma forward_loop_sent:
  "sent dst (trace (snd (forward_loop rlim src dst c ts s))) = sent dst (trace s) @ chunks_read ts"
  by (induction rlim src dst c ts s rule: forward_loop.induct)
     (simp_all add: Let_def sent_append inspect_client_sent inspect_pool_sent)

lemma close_socket_sent [simp]:
  "sent dst (trace (close_socket closes sock name s)) = sent dst (trace s)"
  by (simp add: close_socket_def Let_def sent_append)

lemma forward_sent:
  "sent dst (trace (snd (forward rlim closes src dst c ts s))) = sent dst (trace s) @ chunks_read ts"
  using forward_loop_sent [of dst rlim src c ts s]
  by (auto simp: forward_def split: prod.splits status.splits)

text \<open>
  Claim C5, as the code has it. A line on which the decoder raises \<^verbatim>\<open>JSONDecodeError\<close>
  is passed over and the other lines of the chunk are treated as if it were not there, in
  both directions. A chunk that is not UTF-8 fails as a whole, since the chunk is decoded
  before it is split: the inspection only logs the error, one \<open>Log ERROR\<close> event in the
  trace. In every case the inspection
  returns, the chunk goes to \<^verbatim>\<open>sendall\<close> unchanged, and the next chunk is classified
  as usual.
\<close>

theorem bad_line_is_passed_over:
  "(json_loads rlim bad = Inl JSONDecodeError \<longrightarrow>
      client_messages rlim (pre @ bad # post) s = client_messages rlim (pre @ post) s \<and>
      pool_messages rlim (pre @ bad # post) s = pool_messages rlim (pre @ post) s) \<and>
   (decode data = None \<longrightarrow>
      inspect_client rlim data s = logging ERROR (ErrorParsingClient UnicodeDecodeError) s \<and>
      inspect_pool rlim data s = logging ERROR (ErrorParsingPool UnicodeDecodeError) s \<and>
      trace (inspect_client rlim data s) =
        trace s @ [Log ERROR (ErrorParsingClient UnicodeDecodeError)] \<and>
      trace (inspect_pool rlim data s) =
        trace s @ [Log ERROR (ErrorParsingPool UnicodeDecodeError)]) \<and>
   (data \<noteq> [] \<longrightarrow>
      sent dst (trace (snd (forward rlim closes src dst c [Received data ok] s))) =
        sent dst (trace s) @ [data]) \<and>
   shares_submitted (inspect_client rlim next (inspect_client rlim data s)) =
     shares_submitted (inspect_client rlim data s) + submits rlim next"
proof -
  have skip: "json_loads rlim bad = Inl JSONDecodeError \<longrightarrow>
      client_messages rlim (pre @ bad # post) s = client_messages rlim (pre @ post) s \<and>
      pool_messages rlim (pre @ bad # post) s = pool_messages rlim (pre @ post) s"
    using client_messages_skips pool_messages_skips by blast
  have chunk: "decode data = None \<longrightarrow>
      inspect_client rlim data s = logging ERROR (ErrorParsingClient UnicodeDecodeError) s \<and>
      inspect_pool rlim data s = logging ERROR (ErrorParsingPool UnicodeDecodeError) s \<and>
      trace (inspect_client rlim data s) =
        trace s @ [Log ERROR (ErrorParsingClient UnicodeDecodeError)] \<and>
      trace (inspect_pool rlim data s) =
        trace s @ [Log ERROR (ErrorParsingPool UnicodeDecodeError)]"
    by (simp add: inspect_client_def inspect_pool_def)
  have fwd: "data \<noteq> [] \<longrightarrow>
      sent dst (trace (snd (forward rlim closes src dst c [Received data ok] s))) =
        sent dst (trace s) @ [data]"
    by (simp add: forward_sent)
  have nxt: "shares_submitted (inspect_client rlim next (inspect_client rlim data s)) =
     shares_submitted (inspect_client rlim data s) + submits rlim next"
    by (rule inspect_client_shares)
  from skip chunk fwd nxt show ?thesis by blast
qed

theorem bad_line_is_passed_over_witness:
  "json_loads 1000 (str ''{\"method\":'') = Inl JSONDecodeError \<and>
   decode [CHR 0xFF] = None \<and> [CHR 0xFF] \<noteq> [] \<and>
   client_messages 1000 ([] @ str ''{\"method\":'' # [str ''{\"method\":\"submit\"}'']) initial =
     client_messages 1000 ([] @ [str ''{\"method\":\"submit\"}'']) initial \<and>
   inspect_client 1000 [CHR 0xFF] initial =
     logging ERROR (ErrorParsingClient UnicodeDecodeError) initial \<and>
   sent 2 (trace (snd (forward 1000 (\<lambda>x. True) 1 2 True [Received [CHR 0xFF] True] initial))) =
     sent 2 (trace initial) @ [[CHR 0xFF]]"
proof -
  have j: "json_loads 1000 (str ''{\"method\":'') = Inl JSONDecodeError"
    by (simp add: ev)
  have d: "decode [CHR 0xFF] = None"
    by (simp add: decode_def)
  have n: "[CHR 0xFF] \<noteq> ([] :: bytes)" by simp
  from bad_line_is_passed_over
         [of 1000 "str ''{\"method\":''" "[]" "[str ''{\"method\":\"submit\"}'']" initial
             "[CHR 0xFF]" 2 "\<lambda>x. True" 1 True True]
       j d n
  show ?thesis by (simp del: client_messages.simps pool_messages.simps)
qed

text \<open>
  The claim as stated fails for bytes that are not UTF-8: in the chunk made of the line
  \<^verbatim>\<open>FF\<close> and the line \<^verbatim>\<open>{"method":"submit"}\<close> the second line is well formed and is
  not classified, while the same chunk without the first line counts one share.
\<close>

theorem invalid_utf8_discards_whole_chunk:
  "shares_submitted
     (inspect_client 1000 ([CHR 0xFF, CHR 0x0A] @ ''{\"method\":\"submit\"}'' @ [CHR 0x0A]) initial) = 0 \<and>
   shares_submitted
     (inspect_client 1000 (''{\"method\":\"submit\"}'' @ [CHR 0x0A]) initial) = 1"
proof -
  have a: "submits 1000 ([CHR 0xFF, CHR 0x0A] @ ''{\"method\":\"submit\"}'' @ [CHR 0x0A]) = 0"
    by (simp add: submits_def decode_def)
  have b: "submits 1000 (''{\"method\":\"submit\"}'' @ [CHR 0x0A]) = 1"
    by (simp add: submits_def decode_def reached_def aborts_def submit_line_def strip_nonempty_def
        isspace_def dict_lookup_def ev)
  show ?thesis
    by (simp only: inspect_client_shares a b) (simp add: initial_def)
qed

subsection \<open>What a pump sends and closes\<close>

lemma forward_sent_other:
  assumes "d \<noteq> dst"
  shows "sent d (trace (snd (forward rlim closes src dst c ts s))) = sent d (trace s)"
proof -
  have "sent d (trace (snd (forward_loop rlim src dst c ts s))) = sent d (trace s)"
    using assms
    by (induction rlim src dst c ts s rule: forward_loop.induct)
       (simp_all add: Let_def sent_append inspect_client_sent inspect_pool_sent emit_def)
  then show ?thesis
    by (auto simp: forward_def split: prod.splits status.splits)
qed

text \<open>
  Claim C1. The payloads of the \<^verbatim>\<open>sendall\<close> calls of a pump on its destination are
  exactly the chunks it reads from its source, unchanged and in the same order, in both
  directions and whatever the inspection of a chunk does (the decoder's limit, the state
  and the content of the chunk do not matter); the pump sends nothing to any other socket.
\<close>

theorem pump_forwards_chunks_unchanged:
  "sent dst (trace (snd (forward rlim closes src dst is_from_client ts s))) =
     sent dst (trace s) @ chunks_read ts \<and>
   (d \<noteq> dst \<longrightarrow>
      sent d (trace (snd (forward rlim closes src dst is_from_client ts s))) = sent d (trace s))"
  by (simp add: forward_sent forward_sent_other)

theorem pump_forwards_chunks_unchanged_witness:
  "(1::nat) \<noteq> 2 \<and>
   sent 2 (trace (snd (forward 1000 (\<lambda>x. True) 1 2 True
                         [Received ''{\"method\":'' True, Received [CHR 0xFF] True, Received [] True]
                         initial))) =
     [''{\"method\":'', [CHR 0xFF]] \<and>
   sent 1 (trace (snd (forward 1000 (\<lambda>x. True) 1 2 True
                         [Received ''{\"method\":'' True, Received [CHR 0xFF] True, Received [] True]
                         initial))) = []"
proof -
  have n: "(1::nat) \<noteq> 2" by simp
  have i: "trace initial = []" by (simp add: initial_def)
  from pump_forwards_chunks_unchanged
         [of 2 1000 "\<lambda>x. True" 1 True
             "[Received ''{\"method\":'' True, Received [CHR 0xFF] True, Received [] True]"
             initial 1]
       n i
  show ?thesis by simp
qed



lemma closed_append: "closed (es @ fs) = closed es @ closed fs"
  by (induction es rule: closed.induct) auto

lemma errors_append: "errors (es @ fs) = errors es @ errors fs"
  by (induction es rule: errors.induct) auto

lemma started_append: "started (es @ fs) = started es @ started fs"
  by (induction es rule: started.induct) auto

lemma client_messages_closed:
  "closed (trace (snd (client_messages rlim msgs s))) = closed (trace s)"
  by (induction msgs arbitrary: s) (auto simp: Let_def closed_append split: sum.splits)

lemma pool_messages_closed:
  "closed (trace (snd (pool_messages rlim msgs s))) = closed (trace s)"
  by (induction msgs arbitrary: s) (auto simp: Let_def closed_append split: sum.splits bool.splits)

lemma inspect_client_closed: "closed (trace (inspect_client rlim data s)) = closed (trace s)"
  by (simp add: inspect_client_alt client_messages_closed closed_append split: option.splits)

lemma inspect_pool_closed: "closed (trace (inspect_pool rlim data s)) = closed (trace s)"
  by (simp add: inspect_pool_alt pool_messages_closed closed_append split: option.splits)

lemma forward_loop_closed:
  "closed (trace (snd (forward_loop rlim src dst c ts s))) = closed (trace s)"
  by (induction rlim src dst c ts s rule: forward_loop.induct)
     (simp_all add: Let_def closed_append inspect_client_closed inspect_pool_closed)

lemma forward_loop_status:
  "fst (forward_loop rlim src dst c ts s) = Stopped \<longleftrightarrow> (\<exists>t\<in>set ts. stops t)"
  by (induction rlim src dst c ts s rule: forward_loop.induct) (auto simp: Let_def)

lemma forward_status:
  "fst (forward rlim closes src dst c ts s) = fst (forward_loop rlim src dst c ts s)"
  by (auto simp: forward_def split: prod.splits status.splits)

lemma forward_closed:
  "closed (trace (snd (forward rlim closes src dst c ts s))) =
     closed (trace s) @ (if fst (forward rlim closes src dst c ts s) = Stopped then [src, dst] else [])"
  using forward_loop_closed [of rlim src dst c ts s]
  by (auto simp: forward_def close_socket_def Let_def closed_append split: prod.splits status.splits)

text \<open>
  Claim C6. A pump stops exactly when its script has a turn that ends the loop. A
  zero-length read is such a turn: the pump logs it with \<^verbatim>\<open>logging.info\<close>, logs no error
  and then closes its two sockets, and these are all the events it adds to the trace. When
  \<^verbatim>\<open>recv\<close> raises instead, the event logged is an error. A pump that has stopped, for
  whatever reason, has called \<^verbatim>\<open>close\<close> on its source and then on its destination, and
  a pump that still runs has closed nothing.
\<close>

theorem pump_stop_closes_both_sockets:
  "(fst (forward rlim closes src dst c ts s) = Stopped \<longleftrightarrow> (\<exists>t\<in>set ts. stops t)) \<and>
   (fst (forward rlim closes src dst c ts s) = Stopped \<longrightarrow>
      closed (trace (snd (forward rlim closes src dst c ts s))) = closed (trace s) @ [src, dst]) \<and>
   (fst (forward rlim closes src dst c ts s) = Running \<longrightarrow>
      closed (trace (snd (forward rlim closes src dst c ts s))) = closed (trace s)) \<and>
   forward rlim closes src dst c (Received [] ok # ts) s =
     (Stopped,
      close_socket closes dst (dst_name c)
        (close_socket closes src (src_name c) (logging INFO (ConnectionClosed (src_name c)) s))) \<and>
   trace (snd (forward rlim closes src dst c (Received [] ok # ts) s)) =
     trace s @ [Log INFO (ConnectionClosed (src_name c)), Close src]
       @ (if closes src then [Log DEBUG (ClosedSocket (src_name c))] else [])
       @ [Close dst]
       @ (if closes dst then [Log DEBUG (ClosedSocket (dst_name c))] else []) \<and>
   errors (trace (snd (forward rlim closes src dst c (Received [] ok # ts) s))) = errors (trace s) \<and>
   trace (snd (forward rlim closes src dst c (RecvError # ts) s)) =
     trace s @ [Log ERROR (ConnectionError (src_name c) (dst_name c) OSError), Close src]
       @ (if closes src then [Log DEBUG (ClosedSocket (src_name c))] else [])
       @ [Close dst]
       @ (if closes dst then [Log DEBUG (ClosedSocket (dst_name c))] else [])"
proof -
  have st: "fst (forward rlim closes src dst c ts s) = Stopped \<longleftrightarrow> (\<exists>t\<in>set ts. stops t)"
    by (simp add: forward_status forward_loop_status)
  have cl: "fst (forward rlim closes src dst c ts s) = Stopped \<longrightarrow>
      closed (trace (snd (forward rlim closes src dst c ts s))) = closed (trace s) @ [src, dst]"
    by (simp add: forward_closed)
  have run: "fst (forward rlim closes src dst c ts s) = Running \<longrightarrow>
      closed (trace (snd (forward rlim closes src dst c ts s))) = closed (trace s)"
    by (simp add: forward_closed)
  have eof: "forward rlim closes src dst c (Received [] ok # ts) s =
     (Stopped,
      close_socket closes dst (dst_name c)
        (close_socket closes src (src_name c) (logging INFO (ConnectionClosed (src_name c)) s)))"
    by (simp add: forward_def)
  have tr: "trace (snd (forward rlim closes src dst c (Received [] ok # ts) s)) =
     trace s @ [Log INFO (ConnectionClosed (src_name c)), Close src]
       @ (if closes src then [Log DEBUG (ClosedSocket (src_name c))] else [])
       @ [Close dst]
       @ (if closes dst then [Log DEBUG (ClosedSocket (dst_name c))] else [])"
    by (simp add: forward_def close_socket_def Let_def)
  have err: "errors (trace (snd (forward rlim closes src dst c (Received [] ok # ts) s))) =
      errors (trace s)"
    by (simp add: forward_def close_socket_def Let_def errors_append emit_def logging_def)
  have re: "trace (snd (forward rlim closes src dst c (RecvError # ts) s)) =
     trace s @ [Log ERROR (ConnectionError (src_name c) (dst_name c) OSError), Close src]
       @ (if closes src then [Log DEBUG (ClosedSocket (src_name c))] else [])
       @ [Close dst]
       @ (if closes dst then [Log DEBUG (ClosedSocket (dst_name c))] else [])"
    by (simp add: forward_def close_socket_def Let_def)
  from st cl run eof tr err re show ?thesis by blast
qed

theorem pump_stop_closes_both_sockets_witness:
  "stops RecvError \<and>
   fst (forward 1000 (\<lambda>x. True) 1 2 False [Received ''x'' True, RecvError] initial) = Stopped \<and>
   closed (trace (snd (forward 1000 (\<lambda>x. True) 1 2 False [Received ''x'' True, RecvError] initial))) =
     [1, 2] \<and>
   fst (forward 1000 (\<lambda>x. True) 1 2 False [Received ''x'' True] initial) = Running \<and>
   closed (trace (snd (forward 1000 (\<lambda>x. True) 1 2 False [Received ''x'' True] initial))) = [] \<and>
   trace (snd (forward 1000 (\<lambda>x. True) 1 2 True [Received [] True] initial)) =
     [Log INFO (ConnectionClosed Client), Close 1, Log DEBUG (ClosedSocket Client),
      Close 2, Log DEBUG (ClosedSocket Pool)]"
proof -
  let ?F1 = "forward 1000 (\<lambda>x. True) 1 2 False [Received ''x'' True, RecvError] initial"
  let ?F2 = "forward 1000 (\<lambda>x. True) 1 2 False [Received ''x'' True] initial"
  have e: "\<exists>t\<in>set [Received ''x'' True, RecvError]. stops t" by simp
  have n: "\<not> (\<exists>t\<in>set [Received ''x'' True]. stops t)" by simp
  have i: "closed (trace initial) = []" and i': "trace initial = []"
    by (simp_all add: initial_def)
  note a = pump_stop_closes_both_sockets
             [of 1000 "\<lambda>x. True" 1 2 False "[Received ''x'' True, RecvError]" initial]
  note b = pump_stop_closes_both_sockets
             [of 1000 "\<lambda>x. True" 1 2 False "[Received ''x'' True]" initial]
  note c = pump_stop_closes_both_sockets
             [of 1000 "\<lambda>x. True" 1 2 True "[]" initial True]
  from a e have s1: "fst ?F1 = Stopped" by blast
  from a s1 have "closed (trace (snd ?F1)) = closed (trace initial) @ [1, 2]" by blast
  with i have c1: "closed (trace (snd ?F1)) = [1, 2]" by (simp only: append_Nil)
  from b n have "fst ?F2 \<noteq> Stopped" by blast
  then have s2: "fst ?F2 = Running" by (cases "fst ?F2") simp_all
  from b s2 have "closed (trace (snd ?F2)) = closed (trace initial)" by blast
  with i have c2: "closed (trace (snd ?F2)) = []" by (simp only:)
  from c have "trace (snd (forward 1000 (\<lambda>x. True) 1 2 True [Received [] True] initial)) =
     trace initial @ [Log INFO (ConnectionClosed (src_name True)), Close 1]
       @ (if True then [Log DEBUG (ClosedSocket (src_name True))] else [])
       @ [Close 2]
       @ (if True then [Log DEBUG (ClosedSocket (dst_name True))] else [])"
    by blast
  with i' have t: "trace (snd (forward 1000 (\<lambda>x. True) 1 2 True [Received [] True] initial)) =
     [Log INFO (ConnectionClosed Client), Close 1, Log DEBUG (ClosedSocket Client),
      Close 2, Log DEBUG (ClosedSocket Pool)]"
    by (simp add: src_name_def dst_name_def)
  have "stops RecvError" by simp
  with s1 c1 s2 c2 t show ?thesis by blast
qed

subsection \<open>\<^verbatim>\<open>handle_client\<close>\<close>

text \<open>
  Claim C7. When the dial to the pool fails, \<^verbatim>\<open>handle_client\<close> logs the error, closes
  the client socket and returns: the registry and the share counter are as before, no pump
  thread is started and no other socket is closed.
\<close>

theorem dial_failure_registers_nothing:
  "handle_client client_socket pool_socket False s =
     s\<lparr>trace := trace s @ [Log INFO ConnectingToPool, Connect pool_socket,
                             Log ERROR (FailedToConnect OSError), Close client_socket]\<rparr> \<and>
   connections (handle_client client_socket pool_socket False s) = connections s \<and>
   shares_submitted (handle_client client_socket pool_socket False s) = shares_submitted s \<and>
   started (trace (handle_client client_socket pool_socket False s)) = started (trace s) \<and>
   closed (trace (handle_client client_socket pool_socket False s)) =
     closed (trace s) @ [client_socket] \<and>
   errors (trace (handle_client client_socket pool_socket False s)) =
     errors (trace s) @ [FailedToConnect OSError]"
  by (simp add: handle_client_def Let_def emit_def logging_def started_append closed_append
      errors_append)

text \<open>
  Claim C9, as the code has it. After a successful dial \<^verbatim>\<open>handle_client\<close> starts the
  client pump, then the pool pump, and only then takes the lock, appends the session to the
  registry, logs the new count and leaves the lock: start, then register.
\<close>

theorem pumps_start_before_registration:
  "trace (handle_client client_socket pool_socket True s) =
     trace s @ [Log INFO ConnectingToPool, Connect pool_socket, Log INFO ConnectedToPool,
                Start client_socket pool_socket True, Start pool_socket client_socket False,
                Acquire, Append (client_socket, pool_socket),
                Log INFO (AddedConnection (Suc (length (connections s)))), Release] \<and>
   connections (handle_client client_socket pool_socket True s) =
     connections s @ [(client_socket, pool_socket)] \<and>
   precedes (Start client_socket pool_socket True) (Append (client_socket, pool_socket))
     (drop (length (trace s)) (trace (handle_client client_socket pool_socket True s))) \<and>
   precedes (Start pool_socket client_socket False) (Append (client_socket, pool_socket))
     (drop (length (trace s)) (trace (handle_client client_socket pool_socket True s)))"
  by (simp add: handle_client_def Let_def emit_def logging_def precedes_def)

text \<open>
  The claim as stated fails: in the run of \<^verbatim>\<open>handle_client\<close> for the client socket 1
  and the pool socket 2 from the initial state, the registration does not precede the start
  of either pump.
\<close>

theorem registration_not_before_start:
  "\<not> precedes (Append (1, 2)) (Start 1 2 True) (trace (handle_client 1 2 True initial)) \<and>
   \<not> precedes (Append (1, 2)) (Start 2 1 False) (trace (handle_client 1 2 True initial))"
  by (simp add: handle_client_def Let_def emit_def logging_def precedes_def initial_def)

subsection \<open>\<^verbatim>\<open>hashrate_monitor\<close>\<close>

lemma logged_append: "logged (es @ fs) = logged es @ logged fs"
  by (induction es rule: logged.induct) auto

text \<open>
  Claim C8. A wake of the reporter reads the share counter and the length of the registry
  inside one \<^verbatim>\<open>with lock\<close> block. With \<open>elapsed = now - start_time\<close> positive it then
  logs one line, with the rate \<open>shares / elapsed * 60\<close> and that length; with \<open>elapsed\<close>
  zero or negative it logs nothing; and with no share the logged rate is 0. The registry
  and the counter are left as they are.
\<close>

theorem reporter_rate:
  "(0 < now - start_time \<longrightarrow>
      hashrate_monitor start_time now s =
        logging INFO
          (EstimatedHashrate (real (shares_submitted s) / (now - start_time) * 60)
             (length (connections s)))
          (emit Release (emit Acquire s)) \<and>
      logged (trace (hashrate_monitor start_time now s)) =
        logged (trace s) @
          [(INFO, EstimatedHashrate (real (shares_submitted s) / (now - start_time) * 60)
                    (length (connections s)))]) \<and>
   (now - start_time \<le> 0 \<longrightarrow>
      hashrate_monitor start_time now s = emit Release (emit Acquire s) \<and>
      logged (trace (hashrate_monitor start_time now s)) = logged (trace s)) \<and>
   (0 < now - start_time \<and> shares_submitted s = 0 \<longrightarrow>
      trace (hashrate_monitor start_time now s) =
        trace s @ [Acquire, Release, Log INFO (EstimatedHashrate 0 (length (connections s)))])"
  by (simp add: hashrate_monitor_def Let_def logged_append)

theorem reporter_rate_witness:
  "(0::real) < 10 - 0 \<and> (5::real) - 5 \<le> 0 \<and> shares_submitted initial = 0 \<and>
   hashrate_monitor 0 10 (initial\<lparr>shares_submitted := 3\<rparr>) =
     logging INFO (EstimatedHashrate 18 0)
       (emit Release (emit Acquire (initial\<lparr>shares_submitted := 3\<rparr>))) \<and>
   hashrate_monitor 5 5 initial = emit Release (emit Acquire initial) \<and>
   logged (trace (hashrate_monitor 5 5 initial)) = [] \<and>
   trace (hashrate_monitor 0 10 initial) = [Acquire, Release, Log INFO (EstimatedHashrate 0 0)]"
proof -
  have p: "(0::real) < 10 - 0" by simp
  have z: "(5::real) - 5 \<le> 0" by simp
  have i: "shares_submitted initial = 0" "connections initial = []" "trace initial = []"
    by (simp_all add: initial_def)
  from reporter_rate [of 10 0 "initial\<lparr>shares_submitted := 3\<rparr>"]
       reporter_rate [of 5 5 initial] reporter_rate [of 10 0 initial] p z i
  show ?thesis by simp
qed

subsection \<open>The registry\<close>

lemma client_messages_connections:
  "connections (snd (client_messages rlim msgs s)) = connections s"
  by (induction msgs arbitrary: s) (auto simp: Let_def split: sum.splits)

lemma inspect_client_connections: "connections (inspect_client rlim data s) = connections s"
  by (simp add: inspect_client_alt client_messages_connections split: option.splits)

lemma inspect_pool_connections: "connections (inspect_pool rlim data s) = connections s"
  by (simp add: inspect_pool_alt pool_messages_connections split: option.splits)

lemma forward_loop_connections:
  "connections (snd (forward_loop rlim src dst c ts s)) = connections s"
  by (induction rlim src dst c ts s rule: forward_loop.induct)
     (simp_all add: Let_def inspect_client_connections inspect_pool_connections)

lemma forward_connections:
  "connections (snd (forward rlim closes src dst c ts s)) = connections s"
  using forward_loop_connections [of rlim src dst c ts s]
  by (auto simp: forward_def split: prod.splits status.splits)

lemma handle_client_connections:
  "connections (handle_client client_socket pool_socket connect_ok s) =
     connections s @ (if connect_ok then [(client_socket, pool_socket)] else [])"
  by (simp add: handle_client_def Let_def)

lemma hashrate_monitor_connections:
  "connections (hashrate_monitor start_time now s) = connections s"
  by (simp add: hashrate_monitor_def Let_def)

text \<open>
  Claim C4 against the code. The session of the client socket 1 and the pool socket 2 is
  accepted and registered; the client closes at once, so the client pump reads no bytes,
  stops and closes both sockets, and the pool pump then stops in the same way. Both pumps
  have terminated and the session is still in the registry; the next wake of the reporter
  logs it as one active connection.
\<close>

theorem closed_session_stays_registered:
  "fst (forward 1000 (\<lambda>x. True) 1 2 True [Received [] True] (handle_client 1 2 True initial)) = Stopped \<and>
   fst (forward 1000 (\<lambda>x. True) 2 1 False [Received [] True]
          (snd (forward 1000 (\<lambda>x. True) 1 2 True [Received [] True] (handle_client 1 2 True initial)))) =
     Stopped \<and>
   connections
     (snd (forward 1000 (\<lambda>x. True) 2 1 False [Received [] True]
             (snd (forward 1000 (\<lambda>x. True) 1 2 True [Received [] True] (handle_client 1 2 True initial))))) =
     [(1, 2)] \<and>
   closed (trace
     (snd (forward 1000 (\<lambda>x. True) 2 1 False [Received [] True]
             (snd (forward 1000 (\<lambda>x. True) 1 2 True [Received [] True] (handle_client 1 2 True initial)))))) =
     [1, 2, 2, 1] \<and>
   last (trace (hashrate_monitor 0 10
     (snd (forward 1000 (\<lambda>x. True) 2 1 False [Received [] True]
             (snd (forward 1000 (\<lambda>x. True) 1 2 True [Received [] True] (handle_client 1 2 True initial))))))) =
     Log INFO (EstimatedHashrate 0 1)"
  by (simp add: forward_def close_socket_def handle_client_def hashrate_monitor_def Let_def
      emit_def logging_def initial_def src_name_def dst_name_def)

text \<open>
  No operation of the module takes a session out of the registry: the pumps and the
  reporter leave it as it is and \<^verbatim>\<open>handle_client\<close> only appends.
\<close>

lemma registry_never_shrinks:
  "connections (snd (forward rlim closes src dst c ts s)) = connections s \<and>
   connections (hashrate_monitor start_time now s) = connections s \<and>
   connections (handle_client client_socket pool_socket connect_ok s) =
     connections s @ (if connect_ok then [(client_socket, pool_socket)] else [])"
  by (simp add: forward_connections hashrate_monitor_connections handle_client_connections)

subsection \<open>The lock\<close>

lemma lock_emit:
  "lock_discipline (trace (emit e s)) \<longleftrightarrow> scan (foldl scan (Some False) (trace s)) e = Some False"
  by (simp add: lock_discipline_def)







lemma handle_client_lock:
  "lock_discipline (trace s) \<Longrightarrow>
   lock_discipline (trace (handle_client client_socket pool_socket connect_ok s))"
  by (simp add: handle_client_def Let_def lock_discipline_def)

lemma hashrate_monitor_lock:
  "lock_discipline (trace s) \<Longrightarrow> lock_discipline (trace (hashrate_monitor start_time now s))"
  by (simp add: hashrate_monitor_def Let_def lock_discipline_def)

subsection \<open>The share counter, line by line\<close>









subsection \<open>A read is inspected without regard to the reads before it\<close>

lemma rebase_simps [simp]:
  "shares_submitted (rebase c pre s) = shares_submitted s"
  "connections (rebase c pre s) = c"
  "trace (rebase c pre s) = pre @ trace s"
  by (simp_all add: rebase_def)





















end
